theory Spec2Isabelle
  imports Complex_Main "HOL-Library.Word" "HOL-Library.Multiset"
begin

section \<open>Data model of \<open>src/App.tsx\<close>\<close>

text \<open>
  \<open>interface PasswordOptions\<close>. The field \<open>length\<close> is written \<open>length_opt\<close>, since
  \<open>length\<close> is the list length of HOL. It is a JavaScript number that the slider sets
  through \<open>Number.parseInt\<close>, hence an integer.
\<close>

record PasswordOptions =
  length_opt :: int
  includeLowercase :: bool
  includeUppercase :: bool
  includeNumbers :: bool
  includeSymbols :: bool
  excludeAmbiguous :: bool
  includeDashes :: bool

text \<open>The union type \<open>"password" | "passphrase"\<close> of \<open>passwordMode\<close> and of the field \<open>type\<close>.\<close>

datatype password_mode = Password | Passphrase

text \<open>
  \<open>interface GeneratedPassword\<close>. The field \<open>type\<close> is written \<open>type_of\<close>. The entropy is
  a JavaScript number; it is modelled by the real number that the arithmetic denotes.
\<close>

record GeneratedPassword =
  password :: string
  strength :: nat
  entropy :: real
  type_of :: password_mode

definition WORD_LIST :: "string list" where
  "WORD_LIST =
    [''Mountain'', ''Ocean'', ''Thunder'', ''Phoenix'', ''Dragon'', ''Crystal'', ''Shadow'',
     ''Lightning'', ''Frost'', ''Blaze'', ''Storm'', ''Eagle'', ''Tiger'', ''Wolf'', ''Bear'',
     ''River'', ''Forest'', ''Star'', ''Moon'', ''Sun'', ''Wind'', ''Fire'', ''Ice'', ''Earth'',
     ''Sky'', ''Cloud'', ''Rain'', ''Snow'', ''Leaf'', ''Tree'', ''Rock'', ''Gold'', ''Silver'',
     ''Diamond'', ''Ruby'', ''Sapphire'', ''Pearl'', ''Coral'', ''Wave'', ''Tide'', ''Shore'']"

section \<open>The randomness source\<close>

text \<open>
  \<open>crypto.getRandomValues\<close> fills a one-element \<open>Uint32Array\<close>. The values it delivers
  are an unknown sequence of 32-bit words; the state threaded through the program is the
  number of words consumed so far.
\<close>

type_synonym random_source = "nat \<Rightarrow> 32 word"

text \<open>
  \<open>getSecureRandom(max)\<close> returns \<open>array[0] % max\<close>. Every call site passes a positive
  \<open>max\<close> (3, 8, 10, 26, 100, the 41 words, or the length of a charset already tested
  to be non-empty), so the \<open>NaN\<close> of \<open>% 0\<close> does not arise.
\<close>

definition getSecureRandom :: "random_source \<Rightarrow> nat \<Rightarrow> nat \<Rightarrow> nat \<times> nat" where
  "getSecureRandom src k mx = (unat (src k) mod mx, Suc k)"

section \<open>Entropy and strength\<close>

definition calculateEntropy :: "string \<Rightarrow> string \<Rightarrow> real" where
  "calculateEntropy pw charset = real (length pw) * log 2 (real (length charset))"

definition getPasswordStrength :: "string \<Rightarrow> real \<Rightarrow> nat" where
  "getPasswordStrength pw e =
     (if e < 28 then 1
      else if e < 35 then 2
      else if e < 59 then 3
      else if e < 127 then 4
      else 5)"

section \<open>The character set\<close>

definition lower :: string where "lower = ''abcdefghijklmnopqrstuvwxyz''"
definition upper :: string where "upper = ''ABCDEFGHIJKLMNOPQRSTUVWXYZ''"
definition numbers :: string where "numbers = ''0123456789''"
definition symbols :: string where "symbols = ''!@#$%^&*()_+-=[]{}|;:,.<>?''"
definition ambiguous :: string where "ambiguous = ''O0Il1''"

definition generateCharacterSet :: "PasswordOptions \<Rightarrow> string" where
  "generateCharacterSet opts =
     (let charset = '''';
          charset = (if includeLowercase opts then charset @ lower else charset);
          charset = (if includeUppercase opts then charset @ upper else charset);
          charset = (if includeNumbers opts then charset @ numbers else charset);
          charset = (if includeSymbols opts then charset @ symbols else charset);
          charset = (if excludeAmbiguous opts
                     then filter (\<lambda>c. c \<notin> set ambiguous) charset else charset)
      in charset)"

section \<open>Generation\<close>

text \<open>
  The template literal \<open>`${word}${number}`\<close> renders the number in decimal, without padding.
\<close>

fun toString :: "nat \<Rightarrow> string" where
  "toString n =
     (if n < 10 then [''0123456789'' ! n]
      else toString (n div 10) @ [''0123456789'' ! (n mod 10)])"

declare toString.simps [simp del]

text \<open>\<open>Array.from({ length: n }, f)\<close>: \<open>f\<close> is called \<open>n\<close> times, in index order.\<close>

primrec array_from :: "nat \<Rightarrow> (nat \<Rightarrow> 'a \<times> nat) \<Rightarrow> nat \<Rightarrow> 'a list \<times> nat" where
  "array_from 0 f k = ([], k)"
| "array_from (Suc n) f k =
     (let (x, k1) = f k; (xs, k2) = array_from n f k1 in (x # xs, k2))"

text \<open>\<open>Array.prototype.join\<close> on an array of strings.\<close>

fun join :: "string \<Rightarrow> string list \<Rightarrow> string" where
  "join sep [] = []"
| "join sep [x] = x"
| "join sep (x # y # ys) = x @ sep @ join sep (y # ys)"

text \<open>The callback of \<open>Array.from\<close> in passphrase mode (lines 147 to 151).\<close>

definition passphraseToken :: "random_source \<Rightarrow> nat \<Rightarrow> string \<times> nat" where
  "passphraseToken src k =
     (let (i, k1) = getSecureRandom src k (length WORD_LIST);
          word = WORD_LIST ! i;
          (number, k2) = getSecureRandom src k1 100
      in (word @ toString number, k2))"

text \<open>The required characters, one per selected class (lines 173 to 179).\<close>

definition requiredChars :: "PasswordOptions \<Rightarrow> random_source \<Rightarrow> nat \<Rightarrow> string \<times> nat" where
  "requiredChars opts src k =
     (let rc = [];
          (rc, k) = (if includeLowercase opts
                     then (let (i, k') = getSecureRandom src k 26
                           in (rc @ [''abcdefghijklmnopqrstuvwxyz'' ! i], k'))
                     else (rc, k));
          (rc, k) = (if includeUppercase opts
                     then (let (i, k') = getSecureRandom src k 26
                           in (rc @ [''ABCDEFGHIJKLMNOPQRSTUVWXYZ'' ! i], k'))
                     else (rc, k));
          (rc, k) = (if includeNumbers opts
                     then (let (i, k') = getSecureRandom src k 10
                           in (rc @ [''0123456789'' ! i], k'))
                     else (rc, k));
          (rc, k) = (if includeSymbols opts
                     then (let (i, k') = getSecureRandom src k 8
                           in (rc @ [''!@#$%^&*'' ! i], k'))
                     else (rc, k))
      in (rc, k))"

text \<open>
  The fill loop (lines 187 to 189): \<open>i\<close> starts at the length of the password and runs up
  to \<open>options.length\<close>; each round appends one character of the charset.
\<close>

function fillRemaining ::
  "random_source \<Rightarrow> string \<Rightarrow> int \<Rightarrow> nat \<Rightarrow> string \<Rightarrow> nat \<Rightarrow> string \<times> nat" where
  "fillRemaining src charset len i pw k =
     (if int i < len
      then (let (j, k') = getSecureRandom src k (length charset)
            in fillRemaining src charset len (Suc i) (pw @ [charset ! j]) k')
      else (pw, k))"
  by pat_completeness auto
termination
  by (relation "measure (\<lambda>(src, charset, len, i, pw, k). nat (len - int i))") auto

declare fillRemaining.simps [simp del]

text \<open>
  \<open>Array.prototype.sort\<close> belongs to the JavaScript engine, not to the program. It is a
  parameter of the model: a function that receives the comparator and the array, may call
  the comparator any number of times (each call here consumes one random word), and
  returns the array it produced. The comparator of line 194 ignores its arguments and
  answers \<open>getSecureRandom(3) - 1\<close>.
\<close>

type_synonym comparator = "char \<Rightarrow> char \<Rightarrow> nat \<Rightarrow> int \<times> nat"
type_synonym array_sort = "comparator \<Rightarrow> char list \<Rightarrow> nat \<Rightarrow> char list \<times> nat"

definition randomComparator :: "random_source \<Rightarrow> comparator" where
  "randomComparator src a b k = (let (r, k') = getSecureRandom src k 3 in (int r - 1, k'))"

text \<open>The dash loop (lines 200 to 206) over the indices of \<open>finalPassword\<close>.\<close>

definition addDashes :: "string \<Rightarrow> string" where
  "addDashes finalPassword =
     (let dashInterval = length finalPassword div 4
      in fold (\<lambda>i withDashes.
                 (if i > 0 \<and> i mod dashInterval = 0 then withDashes @ ''-'' else withDashes)
                   @ [finalPassword ! i])
              [0..<length finalPassword] [])"

text \<open>
  Lines 172 to 195 of \<open>generatePassword\<close>: the required characters, the fill and the
  shuffle, that is the password before any dash is added.
\<close>

definition shuffledPassword ::
  "array_sort \<Rightarrow> PasswordOptions \<Rightarrow> random_source \<Rightarrow> nat \<Rightarrow> string \<times> nat" where
  "shuffledPassword sort_impl opts src k =
     (let charset = generateCharacterSet opts;
          (rc, k1) = requiredChars opts src k;
          pw = foldl (\<lambda>p c. p @ [c]) [] rc;
          (pw, k2) = fillRemaining src charset (length_opt opts) (length pw) pw k1
      in sort_impl (randomComparator src) pw k2)"

definition generatePassword ::
  "array_sort \<Rightarrow> password_mode \<Rightarrow> PasswordOptions \<Rightarrow> random_source \<Rightarrow> nat
     \<Rightarrow> GeneratedPassword \<times> nat" where
  "generatePassword sort_impl passwordMode opts src k =
     (if passwordMode = Passphrase then
        (let wordCount = nat (max 4 (min 8 (length_opt opts div 4)));
             (tokens, k1) = array_from wordCount (passphraseToken src) k;
             passphrase = join ''-'' tokens;
             e = calculateEntropy passphrase ''62''
         in (\<lparr>password = passphrase, strength = getPasswordStrength passphrase e,
              entropy = e, type_of = Passphrase\<rparr>, k1))
      else
        (let charset = generateCharacterSet opts
         in if charset = [] then
              (\<lparr>password = [], strength = 0, entropy = 0, type_of = Password\<rparr>, k)
            else
              (let (shuffled, k1) = shuffledPassword sort_impl opts src k;
                   finalPassword = shuffled;
                   finalPassword = (if includeDashes opts \<and> length finalPassword > 8
                                    then addDashes finalPassword else finalPassword);
                   e = calculateEntropy finalPassword charset
               in (\<lparr>password = finalPassword,
                    strength = getPasswordStrength finalPassword e,
                    entropy = e, type_of = Password\<rparr>, k1))))"

text \<open>
  One admissible \<open>Array.prototype.sort\<close>, used to run the model on concrete inputs: an
  insertion sort that asks the comparator where each element goes.
\<close>

fun insert_by :: "comparator \<Rightarrow> char \<Rightarrow> char list \<Rightarrow> nat \<Rightarrow> char list \<times> nat" where
  "insert_by cmp x [] k = ([x], k)"
| "insert_by cmp x (y # ys) k =
     (let (c, k1) = cmp x y k
      in if c \<le> 0 then (x # y # ys, k1)
         else (let (r, k2) = insert_by cmp x ys k1 in (y # r, k2)))"

fun insertion_sort :: array_sort where
  "insertion_sort cmp [] k = ([], k)"
| "insertion_sort cmp (x # xs) k =
     (let (s, k1) = insertion_sort cmp xs k in insert_by cmp x s k1)"

section \<open>Auxiliary notions for the statements\<close>

text \<open>The number of selected character classes.\<close>

definition classCount :: "PasswordOptions \<Rightarrow> nat" where
  "classCount opts = of_bool (includeLowercase opts) + of_bool (includeUppercase opts)
     + of_bool (includeNumbers opts) + of_bool (includeSymbols opts)"

text \<open>The body of the dash loop, for one index.\<close>

definition dashStep :: "string \<Rightarrow> nat \<Rightarrow> nat \<Rightarrow> string \<Rightarrow> string" where
  "dashStep fp d i withDashes =
     (if i > 0 \<and> i mod d = 0 then withDashes @ ''-'' else withDashes) @ [fp ! i]"

text \<open>At least one character class is selected.\<close>

definition anyClass :: "PasswordOptions \<Rightarrow> bool" where
  "anyClass opts \<longleftrightarrow> includeLowercase opts \<or> includeUppercase opts
      \<or> includeNumbers opts \<or> includeSymbols opts"

text \<open>Lines 198 to 207: the final password, given the shuffled one.\<close>

definition finalOf :: "PasswordOptions \<Rightarrow> string \<Rightarrow> string" where
  "finalOf opts shuffled =
     (if includeDashes opts \<and> length shuffled > 8 then addDashes shuffled else shuffled)"

text \<open>The initial options of the application (lines 80 to 88).\<close>
definition defaultOptions :: PasswordOptions where
  "defaultOptions = \<lparr>length_opt = 16, includeLowercase = True, includeUppercase = True,
     includeNumbers = True, includeSymbols = True, excludeAmbiguous = False,
     includeDashes = False\<rparr>"

text \<open>One sequence of random words, used to run the model on concrete inputs.\<close>
definition sampleSource :: random_source where
  "sampleSource i = word_of_nat (i * 37 + 11)"

text \<open>The initial options with a length of 9 and dashes switched on.\<close>
definition dashedOptions :: PasswordOptions where
  "dashedOptions = defaultOptions\<lparr>length_opt := 9, includeDashes := True\<rparr>"

text \<open>The initial options with every character class switched off.\<close>
definition noClassOptions :: PasswordOptions where
  "noClassOptions = defaultOptions\<lparr>includeLowercase := False, includeUppercase := False,
     includeNumbers := False, includeSymbols := False\<rparr>"

text \<open>
  The required characters as the specification words them: for every selected class, one
  character of that class's own seed alphabet, the one \<open>generateCharacterSet\<close> uses.
\<close>
definition requiredChars_spec :: "PasswordOptions \<Rightarrow> random_source \<Rightarrow> nat \<Rightarrow> string \<times> nat" where
  "requiredChars_spec opts src k =
     (let rc = [];
          (rc, k) = (if includeLowercase opts
                     then (let (i, k') = getSecureRandom src k (length lower)
                           in (rc @ [lower ! i], k'))
                     else (rc, k));
          (rc, k) = (if includeUppercase opts
                     then (let (i, k') = getSecureRandom src k (length upper)
                           in (rc @ [upper ! i], k'))
                     else (rc, k));
          (rc, k) = (if includeNumbers opts
                     then (let (i, k') = getSecureRandom src k (length numbers)
                           in (rc @ [numbers ! i], k'))
                     else (rc, k));
          (rc, k) = (if includeSymbols opts
                     then (let (i, k') = getSecureRandom src k (length symbols)
                           in (rc @ [symbols ! i], k'))
                     else (rc, k))
      in (rc, k))"

section \<open>Properties of the building blocks\<close>

lemma getSecureRandom_less: "0 < mx \<Longrightarrow> fst (getSecureRandom src k mx) < mx"
  by (simp add: getSecureRandom_def)

lemma getSecureRandom_next: "snd (getSecureRandom src k mx) = Suc k"
  by (simp add: getSecureRandom_def)

lemma requiredChars_closed:
  "requiredChars opts src k =
     ((if includeLowercase opts then [lower ! (unat (src k) mod 26)] else [])
      @ (if includeUppercase opts
         then [upper ! (unat (src (k + of_bool (includeLowercase opts))) mod 26)] else [])
      @ (if includeNumbers opts
         then [numbers ! (unat (src (k + of_bool (includeLowercase opts)
                                      + of_bool (includeUppercase opts))) mod 10)] else [])
      @ (if includeSymbols opts
         then [''!@#$%^&*'' ! (unat (src (k + of_bool (includeLowercase opts)
                                      + of_bool (includeUppercase opts)
                                      + of_bool (includeNumbers opts))) mod 8)] else []),
      k + classCount opts)"
  by (simp add: requiredChars_def getSecureRandom_def classCount_def lower_def upper_def numbers_def)

lemma nth_mod_mem: "0 < length xs \<Longrightarrow> xs ! (n mod length xs) \<in> set xs"
  by simp

lemma lower_draw: "lower ! (n mod 26) \<in> set lower"
  using nth_mod_mem [of lower n] by (simp add: lower_def)

lemma upper_draw: "upper ! (n mod 26) \<in> set upper"
  using nth_mod_mem [of upper n] by (simp add: upper_def)

lemma numbers_draw: "numbers ! (n mod 10) \<in> set numbers"
  using nth_mod_mem [of numbers n] by (simp add: numbers_def)

lemma symbols_draw: "''!@#$%^&*'' ! (n mod 8) \<in> set ''!@#$%^&*''"
  using nth_mod_mem [of "''!@#$%^&*''" n] by simp

lemma required_symbols_subset: "set ''!@#$%^&*'' \<subseteq> set symbols"
  by (simp add: symbols_def)

lemma fillRemaining_append:
  "\<exists>zs. fst (fillRemaining src charset len i pw k) = pw @ zs
      \<and> length zs = nat (len - int i)
      \<and> snd (fillRemaining src charset len i pw k) = k + nat (len - int i)
      \<and> (charset \<noteq> [] \<longrightarrow> set zs \<subseteq> set charset)"
proof (induction src charset len i pw k rule: fillRemaining.induct)
  case (1 src charset len i pw k)
  show ?case
  proof (cases "int i < len")
    case True
    obtain j k' where jk: "getSecureRandom src k (length charset) = (j, k')"
      by (cases "getSecureRandom src k (length charset)")
    from "1.IH" [OF True jk [symmetric] refl]
    obtain zs where zs: "fst (fillRemaining src charset len (Suc i) (pw @ [charset ! j]) k')
          = (pw @ [charset ! j]) @ zs"
      "length zs = nat (len - int (Suc i))"
      "snd (fillRemaining src charset len (Suc i) (pw @ [charset ! j]) k')
          = k' + nat (len - int (Suc i))"
      "charset \<noteq> [] \<longrightarrow> set zs \<subseteq> set charset"
      by blast
    have k': "k' = Suc k" and j: "j = unat (src k) mod length charset"
      using jk by (simp_all add: getSecureRandom_def)
    have unf: "fillRemaining src charset len i pw k
        = fillRemaining src charset len (Suc i) (pw @ [charset ! j]) k'"
      using True jk by (subst fillRemaining.simps) simp
    have mem: "charset \<noteq> [] \<longrightarrow> charset ! j \<in> set charset"
      using j by simp
    show ?thesis
      apply (rule exI [of _ "charset ! j # zs"])
      using zs k' True mem unf by auto
  next
    case False
    then show ?thesis by (subst (1 2) fillRemaining.simps) simp
  qed
qed

lemma insert_by_mset: "mset (fst (insert_by cmp x ys k)) = add_mset x (mset ys)"
  by (induction ys arbitrary: k) (simp_all add: Let_def case_prod_beta)

lemma insertion_sort_mset: "mset (fst (insertion_sort cmp xs k)) = mset xs"
  by (induction xs arbitrary: k) (simp_all add: Let_def case_prod_beta insert_by_mset)

lemma foldl_snoc_id: "foldl (\<lambda>p c. p @ [c]) acc rc = acc @ rc"
  by (induction rc arbitrary: acc) simp_all

lemma join_Cons: "xs \<noteq> [] \<Longrightarrow> join sep (x # xs) = x @ sep @ join sep xs"
  by (cases xs) simp_all

lemma join_snoc: "xs \<noteq> [] \<Longrightarrow> join sep (xs @ [x]) = join sep xs @ sep @ x"
proof (induction xs)
  case Nil
  then show ?case by simp
next
  case (Cons a xs)
  show ?case
  proof (cases "xs = []")
    case True
    then show ?thesis by simp
  next
    case False
    with Cons show ?thesis by (simp add: join_Cons)
  qed
qed

lemma join_extend_last: "join sep (xs @ [l @ c]) = join sep (xs @ [l]) @ c"
  by (induction xs) (auto simp: join_Cons)

lemma length_join:
  "xs \<noteq> [] \<Longrightarrow> length (join sep xs) = length (concat xs) + (length xs - 1) * length sep"
  by (induction sep xs rule: join.induct) simp_all

lemma filter_join:
  "filter P sep = [] \<Longrightarrow> filter P (join sep xs) = filter P (concat xs)"
  by (induction sep xs rule: join.induct) simp_all

lemma count_join:
  "xs \<noteq> [] \<Longrightarrow> count_list (join sep xs) c
     = count_list (concat xs) c + (length xs - 1) * count_list sep c"
  by (induction sep xs rule: join.induct) simp_all

lemma addDashes_chunks_aux:
  assumes d: "2 \<le> d"
  shows "0 < m \<Longrightarrow> m \<le> length fp \<Longrightarrow>
    \<exists>init l. fold (dashStep fp d) [0..<m] [] = join ''-'' (init @ [l])
       \<and> concat (init @ [l]) = take m fp
       \<and> (\<forall>c\<in>set init. length c = d)
       \<and> length l = (if m mod d = 0 then d else m mod d)"
proof (induction m)
  case 0
  then show ?case by simp
next
  case (Suc m)
  show ?case
  proof (cases "m = 0")
    case True
    have one: "1 mod d = 1" using d by simp
    have "take (Suc 0) fp = [fp ! 0]" using Suc.prems by (cases fp) simp_all
    with True one show ?thesis
      by (intro exI [of _ "[]"] exI [of _ "[fp ! 0]"]) (simp add: dashStep_def)
  next
    case False
    then have m: "0 < m" "m \<le> length fp" "m < length fp" using Suc.prems by simp_all
    from Suc.IH [OF m(1,2)] obtain init l where ch:
      "fold (dashStep fp d) [0..<m] [] = join ''-'' (init @ [l])"
      "concat (init @ [l]) = take m fp" "\<forall>c\<in>set init. length c = d"
      "length l = (if m mod d = 0 then d else m mod d)"
      by blast
    have tk: "take (Suc m) fp = take m fp @ [fp ! m]"
      using m(3) by (simp add: take_Suc_conv_app_nth)
    have step: "fold (dashStep fp d) [0..<Suc m] []
        = dashStep fp d m (join ''-'' (init @ [l]))"
      using ch(1) by simp
    show ?thesis
    proof (cases "m mod d = 0")
      case True
      have sm: "Suc m mod d = 1" using True d by (simp add: mod_Suc)
      have "dashStep fp d m (join ''-'' (init @ [l])) = join ''-'' ((init @ [l]) @ [[fp ! m]])"
        using True m(1) by (simp add: dashStep_def join_snoc del: append_assoc)
      moreover have "concat ((init @ [l]) @ [[fp ! m]]) = take (Suc m) fp"
        using ch(2) tk by simp
      moreover have "\<forall>c\<in>set (init @ [l]). length c = d"
        using ch(3,4) True by simp
      moreover have "length [fp ! m] = (if Suc m mod d = 0 then d else Suc m mod d)"
        using sm by simp
      ultimately show ?thesis unfolding step by blast
    next
      case False
      have sm: "(if Suc m mod d = 0 then d else Suc m mod d) = Suc (m mod d)"
        using False d by (simp add: mod_Suc)
      have "dashStep fp d m (join ''-'' (init @ [l])) = join ''-'' (init @ [l @ [fp ! m]])"
        using False by (simp add: dashStep_def join_extend_last [of _ init l "[fp ! m]"])
      moreover have "concat (init @ [l @ [fp ! m]]) = take (Suc m) fp"
        using ch(2) tk by simp
      moreover have "length (l @ [fp ! m]) = (if Suc m mod d = 0 then d else Suc m mod d)"
        using sm ch(4) False by simp
      ultimately show ?thesis unfolding step using ch(3) by blast
    qed
  qed
qed

lemma addDashes_fold: "addDashes fp = fold (dashStep fp (length fp div 4)) [0..<length fp] []"
  by (simp add: addDashes_def dashStep_def [abs_def] Let_def)

lemma addDashes_chunks:
  assumes "8 < length fp"
  shows "\<exists>init l. addDashes fp = join ''-'' (init @ [l])
       \<and> concat (init @ [l]) = fp
       \<and> (\<forall>c\<in>set init. length c = length fp div 4)
       \<and> 0 < length l \<and> length l \<le> length fp div 4"
proof -
  let ?d = "length fp div 4"
  have d: "2 \<le> ?d" using assms by simp
  have n: "0 < length fp" "length fp \<le> length fp" using assms by auto
  from addDashes_chunks_aux [OF d n]
  obtain init l where ch:
      "fold (dashStep fp ?d) [0..<length fp] [] = join ''-'' (init @ [l])"
      "concat (init @ [l]) = take (length fp) fp" "\<forall>c\<in>set init. length c = ?d"
      "length l = (if length fp mod ?d = 0 then ?d else length fp mod ?d)"
    by blast
  have "0 < length l \<and> length l \<le> ?d"
    using ch(4) d by (auto simp: less_imp_le)
  moreover have "addDashes fp = join ''-'' (init @ [l])"
    using ch(1) by (simp only: addDashes_fold)
  moreover have "concat (init @ [l]) = fp"
    using ch(2) by simp
  ultimately show ?thesis using ch(3) by blast
qed

lemma addDashes_filter:
  assumes "8 < length fp"
  shows "filter (\<lambda>c. c \<noteq> CHR ''-'') (addDashes fp) = filter (\<lambda>c. c \<noteq> CHR ''-'') fp"
proof -
  from addDashes_chunks [OF assms] obtain init l where
    "addDashes fp = join ''-'' (init @ [l])" "concat (init @ [l]) = fp"
    by blast
  then show ?thesis
    using filter_join [of "\<lambda>c. c \<noteq> CHR ''-''" "''-''" "init @ [l]"] by simp
qed

lemma generateCharacterSet_empty_iff: "generateCharacterSet opts = [] \<longleftrightarrow> \<not> anyClass opts"
  by (auto simp: generateCharacterSet_def anyClass_def lower_def upper_def numbers_def
      symbols_def ambiguous_def)

lemma requiredChars_length: "length (fst (requiredChars opts src k)) = classCount opts"
  by (simp add: requiredChars_closed classCount_def)

lemma shuffledPassword_mset:
  assumes perm: "\<And>cmp xs k. mset (fst (sort_impl cmp xs k)) = mset xs"
  shows "\<exists>zs. mset (fst (shuffledPassword sort_impl opts src k))
            = mset (fst (requiredChars opts src k) @ zs)
      \<and> length zs = nat (length_opt opts - int (classCount opts))
      \<and> (generateCharacterSet opts \<noteq> [] \<longrightarrow> set zs \<subseteq> set (generateCharacterSet opts))"
proof -
  let ?rc = "fst (requiredChars opts src k)"
  let ?k1 = "snd (requiredChars opts src k)"
  from fillRemaining_append [of src "generateCharacterSet opts" "length_opt opts"
      "length ?rc" ?rc ?k1]
  obtain zs where zs:
    "fst (fillRemaining src (generateCharacterSet opts) (length_opt opts) (length ?rc) ?rc ?k1)
       = ?rc @ zs"
    "length zs = nat (length_opt opts - int (length ?rc))"
    "generateCharacterSet opts \<noteq> [] \<longrightarrow> set zs \<subseteq> set (generateCharacterSet opts)"
    by blast
  have "mset (fst (shuffledPassword sort_impl opts src k)) = mset (?rc @ zs)"
    using zs(1) by (simp add: shuffledPassword_def Let_def case_prod_beta foldl_snoc_id perm)
  with zs(2,3) show ?thesis by (auto simp: requiredChars_length)
qed

lemma shuffledPassword_length:
  assumes perm: "\<And>cmp xs k. mset (fst (sort_impl cmp xs k)) = mset xs"
  shows "int (length (fst (shuffledPassword sort_impl opts src k)))
           = max (length_opt opts) (int (classCount opts))"
proof -
  from shuffledPassword_mset [where sort_impl = sort_impl and opts = opts and src = src and k = k, OF perm] obtain zs where
    "mset (fst (shuffledPassword sort_impl opts src k)) = mset (fst (requiredChars opts src k) @ zs)"
    "length zs = nat (length_opt opts - int (classCount opts))"
    by blast
  then have "length (fst (shuffledPassword sort_impl opts src k))
      = classCount opts + nat (length_opt opts - int (classCount opts))"
    using mset_eq_length [of "fst (shuffledPassword sort_impl opts src k)"
        "fst (requiredChars opts src k) @ zs"]
    by (simp add: requiredChars_length)
  then show ?thesis by simp
qed

lemma shuffledPassword_required:
  assumes perm: "\<And>cmp xs k. mset (fst (sort_impl cmp xs k)) = mset xs"
  shows "set (fst (requiredChars opts src k)) \<subseteq> set (fst (shuffledPassword sort_impl opts src k))"
proof -
  from shuffledPassword_mset [where sort_impl = sort_impl and opts = opts and src = src and k = k, OF perm] obtain zs where
    "mset (fst (shuffledPassword sort_impl opts src k)) = mset (fst (requiredChars opts src k) @ zs)"
    by blast
  then have "set (fst (shuffledPassword sort_impl opts src k))
      = set (fst (requiredChars opts src k) @ zs)"
    by (rule mset_eq_setD)
  then show ?thesis by simp
qed

lemma generatePassword_password_mode:
  assumes "anyClass opts"
  shows "generatePassword sort_impl Password opts src k =
     (let fp = finalOf opts (fst (shuffledPassword sort_impl opts src k));
          e = calculateEntropy fp (generateCharacterSet opts)
      in (\<lparr>password = fp, strength = getPasswordStrength fp e, entropy = e,
           type_of = Password\<rparr>, snd (shuffledPassword sort_impl opts src k)))"
  using assms
  by (simp add: generatePassword_def generateCharacterSet_empty_iff Let_def case_prod_beta
      finalOf_def)

lemma generatePassword_no_class:
  assumes "\<not> anyClass opts"
  shows "generatePassword sort_impl Password opts src k =
     (\<lparr>password = [], strength = 0, entropy = 0, type_of = Password\<rparr>, k)"
  using assms by (simp add: generatePassword_def generateCharacterSet_empty_iff)

lemma finalOf_filter:
  "filter (\<lambda>c. c \<noteq> CHR ''-'') (finalOf opts fp) = filter (\<lambda>c. c \<noteq> CHR ''-'') fp"
  by (simp add: finalOf_def addDashes_filter)

lemma dash_not_required:
  "CHR ''-'' \<notin> set lower" "CHR ''-'' \<notin> set upper" "CHR ''-'' \<notin> set numbers"
  "CHR ''-'' \<notin> set ''!@#$%^&*''"
  by (simp_all add: lower_def upper_def numbers_def)

lemma required_lower:
  assumes "includeLowercase opts"
  shows "\<exists>c\<in>set (fst (requiredChars opts src k)). c \<in> set lower \<and> c \<noteq> CHR ''-''"
proof -
  let ?c = "lower ! (unat (src k) mod 26)"
  have "?c \<in> set lower" by (rule lower_draw)
  moreover from this have "?c \<noteq> CHR ''-''" using dash_not_required(1) by metis
  moreover have "?c \<in> set (fst (requiredChars opts src k))"
    using assms by (simp add: requiredChars_closed)
  ultimately show ?thesis by blast
qed

lemma required_upper:
  assumes "includeUppercase opts"
  shows "\<exists>c\<in>set (fst (requiredChars opts src k)). c \<in> set upper \<and> c \<noteq> CHR ''-''"
proof -
  let ?c = "upper ! (unat (src (k + of_bool (includeLowercase opts))) mod 26)"
  have "?c \<in> set upper" by (rule upper_draw)
  moreover from this have "?c \<noteq> CHR ''-''" using dash_not_required(2) by metis
  moreover have "?c \<in> set (fst (requiredChars opts src k))"
    using assms by (simp add: requiredChars_closed)
  ultimately show ?thesis by blast
qed

lemma required_numbers:
  assumes "includeNumbers opts"
  shows "\<exists>c\<in>set (fst (requiredChars opts src k)). c \<in> set numbers \<and> c \<noteq> CHR ''-''"
proof -
  let ?c = "numbers ! (unat (src (k + of_bool (includeLowercase opts)
                + of_bool (includeUppercase opts))) mod 10)"
  have "?c \<in> set numbers" by (rule numbers_draw)
  moreover from this have "?c \<noteq> CHR ''-''" using dash_not_required(3) by metis
  moreover have "?c \<in> set (fst (requiredChars opts src k))"
    using assms by (simp add: requiredChars_closed)
  ultimately show ?thesis by blast
qed

lemma required_symbols:
  assumes "includeSymbols opts"
  shows "\<exists>c\<in>set (fst (requiredChars opts src k)). c \<in> set symbols \<and> c \<noteq> CHR ''-''"
proof -
  let ?c = "''!@#$%^&*'' ! (unat (src (k + of_bool (includeLowercase opts)
                + of_bool (includeUppercase opts) + of_bool (includeNumbers opts))) mod 8)"
  have m: "?c \<in> set ''!@#$%^&*''" by (rule symbols_draw)
  then have "?c \<in> set symbols" using required_symbols_subset by blast
  moreover from m have "?c \<noteq> CHR ''-''" using dash_not_required(4) by metis
  moreover have "?c \<in> set (fst (requiredChars opts src k))"
    using assms by (simp add: requiredChars_closed)
  ultimately show ?thesis by blast
qed

section \<open>Strength classification\<close>

lemma getPasswordStrength_mono:
  "x \<le> y \<Longrightarrow> getPasswordStrength p x \<le> getPasswordStrength q y"
  by (simp add: getPasswordStrength_def)

lemma getPasswordStrength_range: "getPasswordStrength p x \<in> {1..5}"
  by (simp add: getPasswordStrength_def)

text \<open>
  C7. \<open>getPasswordStrength\<close> is a total function whose value depends on the entropy only
  (the password argument is ignored), it is monotonic non-decreasing in the entropy, its
  value lies in 1..5, and the boundary inputs 27.999, 28, 34.999, 35, 58.999, 59, 126.999,
  127 are classified 1, 2, 2, 3, 3, 4, 4, 5.
\<close>

theorem getPasswordStrength_tiers:
  assumes "x \<le> y"
  shows "getPasswordStrength p x \<le> getPasswordStrength q y
    \<and> getPasswordStrength p x = getPasswordStrength q x
    \<and> getPasswordStrength p x \<in> {1..5}
    \<and> getPasswordStrength p 27.999 = 1 \<and> getPasswordStrength p 28 = 2
    \<and> getPasswordStrength p 34.999 = 2 \<and> getPasswordStrength p 35 = 3
    \<and> getPasswordStrength p 58.999 = 3 \<and> getPasswordStrength p 59 = 4
    \<and> getPasswordStrength p 126.999 = 4 \<and> getPasswordStrength p 127 = 5"
  using assms by (simp add: getPasswordStrength_def)

theorem getPasswordStrength_tiers_witness:
  "(34.999::real) \<le> 59
    \<and> getPasswordStrength ''abc'' 34.999 \<le> getPasswordStrength ''xyz'' 59
    \<and> getPasswordStrength ''abc'' 34.999 = 2 \<and> getPasswordStrength ''xyz'' 59 = 4"
  using getPasswordStrength_tiers [of "34.999" 59 "''abc''" "''xyz''"]
  by (simp add: getPasswordStrength_def)

section \<open>Passphrase mode\<close>

lemma array_from_length: "length (fst (array_from n f k)) = n"
  by (induction n arbitrary: k) (simp_all add: Let_def case_prod_beta)

lemma array_from_elems: "t \<in> set (fst (array_from n f k)) \<Longrightarrow> \<exists>k'. t = fst (f k')"
  by (induction n arbitrary: k) (auto simp: Let_def case_prod_beta)

lemma array_from_next:
  "(\<And>j. snd (f j) = j + c) \<Longrightarrow> snd (array_from n f k) = k + n * c"
  by (induction n arbitrary: k) (simp_all add: Let_def case_prod_beta)

lemma passphraseToken_closed:
  "passphraseToken src k =
     (WORD_LIST ! (unat (src k) mod 41) @ toString (unat (src (Suc k)) mod 100), k + 2)"
  by (simp add: passphraseToken_def getSecureRandom_def WORD_LIST_def)

lemma WORD_LIST_draw: "WORD_LIST ! (n mod 41) \<in> set WORD_LIST"
  using nth_mod_mem [of WORD_LIST n] by (simp add: WORD_LIST_def)

lemma WORD_LIST_no_dash: "w \<in> set WORD_LIST \<Longrightarrow> CHR ''-'' \<notin> set w"
  by (auto simp: WORD_LIST_def)

lemma toString_digits: "set (toString n) \<subseteq> set ''0123456789''"
proof (induction n rule: toString.induct)
  case (1 n)
  have d: "\<And>m. m < 10 \<Longrightarrow> ''0123456789'' ! m \<in> set ''0123456789''"
    by (rule nth_mem) simp
  show ?case
  proof (cases "n < 10")
    case True
    then show ?thesis using d [of n] by (subst toString.simps) simp
  next
    case False
    have "n mod 10 < 10" by simp
    from d [OF this] "1.IH" False show ?thesis by (subst toString.simps) simp
  qed
qed

lemma toString_no_dash: "CHR ''-'' \<notin> set (toString n)"
  using toString_digits [of n] by auto

lemma count_concat_zero:
  "(\<And>t. t \<in> set ts \<Longrightarrow> c \<notin> set t) \<Longrightarrow> count_list (concat ts) c = 0"
  by (induction ts) (simp_all add: count_list_0_iff)

lemma passphrase_tokens:
  "\<exists>tokens. password (fst (generatePassword sort_impl Passphrase opts src k)) = join ''-'' tokens
     \<and> int (length tokens) = max 4 (min 8 (length_opt opts div 4))
     \<and> (\<forall>t\<in>set tokens. \<exists>w\<in>set WORD_LIST. \<exists>n<100. t = w @ toString n)"
proof -
  let ?n = "nat (max 4 (min 8 (length_opt opts div 4)))"
  let ?tokens = "fst (array_from ?n (passphraseToken src) k)"
  have "password (fst (generatePassword sort_impl Passphrase opts src k)) = join ''-'' ?tokens"
    by (simp add: generatePassword_def Let_def case_prod_beta)
  moreover have "int (length ?tokens) = max 4 (min 8 (length_opt opts div 4))"
    by (simp add: array_from_length)
  moreover have "\<forall>t\<in>set ?tokens. \<exists>w\<in>set WORD_LIST. \<exists>n<100. t = w @ toString n"
  proof
    fix t assume "t \<in> set ?tokens"
    from array_from_elems [OF this] obtain k' where "t = fst (passphraseToken src k')" ..
    then have "t = WORD_LIST ! (unat (src k') mod 41) @ toString (unat (src (Suc k')) mod 100)"
      by (simp add: passphraseToken_closed)
    moreover have "unat (src (Suc k')) mod 100 < 100" by simp
    ultimately show "\<exists>w\<in>set WORD_LIST. \<exists>n<100. t = w @ toString n"
      using WORD_LIST_draw by blast
  qed
  ultimately show ?thesis by blast
qed

lemma passphrase_dash_count:
  assumes "tokens \<noteq> []" "\<forall>t\<in>set tokens. \<exists>w\<in>set WORD_LIST. \<exists>n<100. t = w @ toString n"
  shows "count_list (join ''-'' tokens) CHR ''-'' = length tokens - 1"
proof -
  have "\<And>t. t \<in> set tokens \<Longrightarrow> CHR ''-'' \<notin> set t"
    using assms(2) WORD_LIST_no_dash toString_no_dash by fastforce
  then have "count_list (concat tokens) CHR ''-'' = 0" by (rule count_concat_zero)
  then show ?thesis using count_join [OF assms(1), of "''-''" "CHR ''-''"] by simp
qed

lemma sample_tokens:
  "fst (array_from 4 (passphraseToken sampleSource) 0) = [''Eagle48'', ''Phoenix22'', ''Pearl96'', ''Leaf70'']"
  by code_simp

text \<open>
  C9. In passphrase mode the secret is the \<open>join\<close> by \<open>-\<close> of a list of tokens whose
  number is \<open>max 4 (min 8 (length div 4))\<close>, hence between 4 and 8; every token is a word of
  \<open>WORD_LIST\<close> immediately followed by the decimal rendering of a number below 100; no
  token contains a \<open>-\<close>, so the secret has one \<open>-\<close> less than it has tokens; a request of
  length 16 gives 4 tokens and 3 separators.
\<close>

theorem passphrase_structure:
  "\<exists>tokens. password (fst (generatePassword sort_impl Passphrase opts src k)) = join ''-'' tokens
     \<and> int (length tokens) = max 4 (min 8 (length_opt opts div 4))
     \<and> 4 \<le> length tokens \<and> length tokens \<le> 8
     \<and> (\<forall>t\<in>set tokens. \<exists>w\<in>set WORD_LIST. \<exists>n<100. t = w @ toString n)
     \<and> count_list (join ''-'' tokens) CHR ''-'' = length tokens - 1
     \<and> (length_opt opts = 16 \<longrightarrow> length tokens = 4 \<and> count_list (join ''-'' tokens) CHR ''-'' = 3)"
proof -
  from passphrase_tokens [of sort_impl opts src k] obtain tokens where t:
    "password (fst (generatePassword sort_impl Passphrase opts src k)) = join ''-'' tokens"
    "int (length tokens) = max 4 (min 8 (length_opt opts div 4))"
    "\<forall>t\<in>set tokens. \<exists>w\<in>set WORD_LIST. \<exists>n<100. t = w @ toString n"
    by blast
  from t(2) have len: "4 \<le> length tokens" "length tokens \<le> 8" by linarith+
  then have "tokens \<noteq> []" by auto
  from passphrase_dash_count [OF this t(3)]
  have cnt: "count_list (join ''-'' tokens) CHR ''-'' = length tokens - 1" .
  have "length_opt opts = 16 \<longrightarrow> length tokens = 4" using t(2) by auto
  with t len cnt show ?thesis by (intro exI [of _ tokens]) auto
qed

theorem passphrase_structure_witness:
  "length_opt defaultOptions = 16
   \<and> password (fst (generatePassword insertion_sort Passphrase defaultOptions sampleSource 0))
       = ''Eagle48-Phoenix22-Pearl96-Leaf70''
   \<and> count_list (password (fst (generatePassword insertion_sort Passphrase defaultOptions
        sampleSource 0))) CHR ''-'' = 3"
  using passphrase_structure [of insertion_sort defaultOptions sampleSource 0]
  by (auto simp: defaultOptions_def generatePassword_def Let_def case_prod_beta sample_tokens)

text \<open>
  C10. In passphrase mode the result and the random words consumed depend on the options
  through \<open>length\<close> only: two option records of equal length give the same result on the
  same random words, whatever their six flags (and whatever the engine's sort).
\<close>

theorem passphrase_ignores_flags:
  assumes "length_opt o1 = length_opt o2"
  shows "generatePassword s1 Passphrase o1 src k = generatePassword s2 Passphrase o2 src k"
  using assms by (simp add: generatePassword_def)

theorem passphrase_ignores_flags_witness:
  "length_opt defaultOptions = length_opt (defaultOptions\<lparr>includeLowercase := False,
       includeUppercase := False, includeNumbers := False, includeSymbols := False,
       excludeAmbiguous := True, includeDashes := True\<rparr>)
   \<and> generatePassword insertion_sort Passphrase defaultOptions sampleSource 0
     = generatePassword insertion_sort Passphrase
         (defaultOptions\<lparr>includeLowercase := False, includeUppercase := False,
            includeNumbers := False, includeSymbols := False, excludeAmbiguous := True,
            includeDashes := True\<rparr>) sampleSource 0"
  using passphrase_ignores_flags [of defaultOptions "defaultOptions\<lparr>includeLowercase := False,
       includeUppercase := False, includeNumbers := False, includeSymbols := False,
       excludeAmbiguous := True, includeDashes := True\<rparr>" insertion_sort sampleSource 0 insertion_sort]
  by simp

lemma passphrase_entropy_is_length:
  "entropy (fst (generatePassword sort_impl Passphrase opts src k))
     = real (length (password (fst (generatePassword sort_impl Passphrase opts src k))))"
  by (simp add: generatePassword_def Let_def case_prod_beta calculateEntropy_def)

section \<open>Password mode\<close>

lemma sample_shuffled:
  "fst (shuffledPassword insertion_sort dashedOptions sampleSource 0) = ''Wl#5u)5Rg''"
  by code_simp

lemma sample_dashed: "addDashes ''Wl#5u)5Rg'' = ''Wl-#5-u)-5R-g''"
  by code_simp

lemma anyClass_samples: "anyClass defaultOptions" "anyClass dashedOptions" "\<not> anyClass noClassOptions"
  by (simp_all add: anyClass_def defaultOptions_def dashedOptions_def noClassOptions_def)

lemma addDashes_shape:
  assumes "8 < length fp"
  shows "\<exists>init l. addDashes fp = join ''-'' (init @ [l])
       \<and> concat (init @ [l]) = fp
       \<and> (\<forall>c\<in>set init. length c = length fp div 4)
       \<and> 0 < length l \<and> length l \<le> length fp div 4
       \<and> init \<noteq> []
       \<and> length (addDashes fp) = length fp + length init
       \<and> addDashes fp ! 0 = fp ! 0"
proof -
  from addDashes_chunks [OF assms] obtain init l where ch:
    "addDashes fp = join ''-'' (init @ [l])" "concat (init @ [l]) = fp"
    "\<forall>c\<in>set init. length c = length fp div 4"
    "0 < length l" "length l \<le> length fp div 4"
    by blast
  have ne: "init \<noteq> []"
  proof
    assume "init = []"
    with ch(2) have "length l = length fp" by simp
    with ch(5) assms show False by simp
  qed
  have "length (concat (init @ [l])) = length fp" using ch(2) by simp
  then have len: "length (addDashes fp) = length fp + length init"
    using length_join [of "init @ [l]" "''-''"] ch(1) by simp
  obtain c cs where init: "init = c # cs" using ne by (cases init) auto
  have c: "c \<noteq> []" using ch(3) init assms by auto
  have "addDashes fp = c @ ''-'' @ join ''-'' (cs @ [l])"
    using ch(1) init by (simp add: join_Cons)
  moreover have "fp = c @ concat (cs @ [l])" using ch(2) init by simp
  ultimately have "addDashes fp ! 0 = c ! 0" "fp ! 0 = c ! 0"
    using c by (metis length_greater_0_conv nth_append)+
  then have "addDashes fp ! 0 = fp ! 0" by simp
  with ch ne len show ?thesis by blast
qed

text \<open>
  C8. In password mode with \<open>includeDashes\<close> and a shuffled password of more than 8
  characters, the secret is the shuffled password cut into pieces and joined by \<open>-\<close>:
  every piece but the last has exactly \<open>length div 4\<close> characters (the length before the
  dashes), the last has between 1 and \<open>length div 4\<close>, and there are at least two pieces. So
  a separator follows every \<open>length div 4\<close> characters, the first one after the first
  interval, the secret starts with the first character of the shuffled password, and the
  pieces between the separators concatenate to the shuffled password: the secret is longer
  by exactly the number of separators.
\<close>

theorem dashes_every_quarter:
  assumes "anyClass opts" and "includeDashes opts"
    and "8 < length (fst (shuffledPassword sort_impl opts src k))"
  shows "\<exists>init l.
       password (fst (generatePassword sort_impl Password opts src k)) = join ''-'' (init @ [l])
     \<and> concat (init @ [l]) = fst (shuffledPassword sort_impl opts src k)
     \<and> (\<forall>c\<in>set init. length c = length (fst (shuffledPassword sort_impl opts src k)) div 4)
     \<and> 0 < length l
     \<and> length l \<le> length (fst (shuffledPassword sort_impl opts src k)) div 4
     \<and> init \<noteq> []
     \<and> length (password (fst (generatePassword sort_impl Password opts src k)))
         = length (fst (shuffledPassword sort_impl opts src k)) + length init
     \<and> password (fst (generatePassword sort_impl Password opts src k)) ! 0
         = fst (shuffledPassword sort_impl opts src k) ! 0"
proof -
  have "password (fst (generatePassword sort_impl Password opts src k))
      = addDashes (fst (shuffledPassword sort_impl opts src k))"
    using assms by (simp add: generatePassword_password_mode finalOf_def Let_def)
  then show ?thesis using addDashes_shape [OF assms(3)] by simp
qed

theorem dashes_every_quarter_witness:
  "anyClass dashedOptions \<and> includeDashes dashedOptions
   \<and> 8 < length (fst (shuffledPassword insertion_sort dashedOptions sampleSource 0))
   \<and> (\<exists>init l.
         password (fst (generatePassword insertion_sort Password dashedOptions sampleSource 0))
           = join ''-'' (init @ [l])
       \<and> concat (init @ [l]) = ''Wl#5u)5Rg''
       \<and> (\<forall>c\<in>set init. length c = 2) \<and> 0 < length l \<and> length l \<le> 2 \<and> init \<noteq> [])"
proof -
  have h1: "anyClass dashedOptions" by (rule anyClass_samples)
  have h2: "includeDashes dashedOptions" by (simp add: dashedOptions_def)
  have h3: "8 < length (fst (shuffledPassword insertion_sort dashedOptions sampleSource 0))"
    by (simp add: sample_shuffled)
  from dashes_every_quarter [OF h1 h2 h3] show ?thesis
    using h1 h2 h3 by (simp add: sample_shuffled) blast
qed

text \<open>
  C6. When the four class flags are all false, password mode returns the record with the
  empty secret, strength 0 and entropy 0, of type \<open>password\<close>; it is an ordinary return
  value, and no random word is consumed.
\<close>

theorem no_class_zero_result:
  assumes "\<not> includeLowercase opts" and "\<not> includeUppercase opts"
    and "\<not> includeNumbers opts" and "\<not> includeSymbols opts"
  shows "generatePassword sort_impl Password opts src k
           = (\<lparr>password = [], strength = 0, entropy = 0, type_of = Password\<rparr>, k)"
  using assms by (simp add: generatePassword_no_class anyClass_def)

theorem no_class_zero_result_witness:
  "\<not> includeLowercase noClassOptions \<and> \<not> includeUppercase noClassOptions
   \<and> \<not> includeNumbers noClassOptions \<and> \<not> includeSymbols noClassOptions
   \<and> generatePassword insertion_sort Password noClassOptions sampleSource 0
       = (\<lparr>password = [], strength = 0, entropy = 0, type_of = Password\<rparr>, 0)"
  using no_class_zero_result [of noClassOptions insertion_sort sampleSource 0]
  by (simp add: noClassOptions_def defaultOptions_def)

lemma password_contains_required:
  assumes perm: "\<And>cmp xs k. mset (fst (sort_impl cmp xs k)) = mset xs"
    and any: "anyClass opts"
    and c: "c \<in> set (fst (requiredChars opts src k))" "c \<noteq> CHR ''-''"
  shows "c \<in> set (filter (\<lambda>c. c \<noteq> CHR ''-'')
            (password (fst (generatePassword sort_impl Password opts src k))))"
proof -
  have "c \<in> set (fst (shuffledPassword sort_impl opts src k))"
    using shuffledPassword_required [where sort_impl = sort_impl, OF perm] c(1) by blast
  then have "c \<in> set (filter (\<lambda>c. c \<noteq> CHR ''-'') (fst (shuffledPassword sort_impl opts src k)))"
    using c(2) by simp
  then show ?thesis
    using any by (simp add: generatePassword_password_mode Let_def finalOf_filter)
qed

text \<open>
  C5. For every engine sort that returns a permutation of its input, every sequence of
  random words and every options record with at least one class selected, the secret of
  password mode is not empty, and what remains of it once every \<open>-\<close> is removed still
  holds, for each selected class, a character of that class's seed alphabet.
\<close>

theorem password_covers_selected_classes:
  assumes perm: "\<And>cmp xs k. mset (fst (sort_impl cmp xs k)) = mset xs"
    and any: "includeLowercase opts \<or> includeUppercase opts \<or> includeNumbers opts
               \<or> includeSymbols opts"
  shows "password (fst (generatePassword sort_impl Password opts src k)) \<noteq> []
    \<and> (includeLowercase opts \<longrightarrow>
         (\<exists>c\<in>set (filter (\<lambda>c. c \<noteq> CHR ''-'')
                (password (fst (generatePassword sort_impl Password opts src k)))). c \<in> set lower))
    \<and> (includeUppercase opts \<longrightarrow>
         (\<exists>c\<in>set (filter (\<lambda>c. c \<noteq> CHR ''-'')
                (password (fst (generatePassword sort_impl Password opts src k)))). c \<in> set upper))
    \<and> (includeNumbers opts \<longrightarrow>
         (\<exists>c\<in>set (filter (\<lambda>c. c \<noteq> CHR ''-'')
                (password (fst (generatePassword sort_impl Password opts src k)))). c \<in> set numbers))
    \<and> (includeSymbols opts \<longrightarrow>
         (\<exists>c\<in>set (filter (\<lambda>c. c \<noteq> CHR ''-'')
                (password (fst (generatePassword sort_impl Password opts src k)))). c \<in> set symbols))"
proof -
  let ?s = "filter (\<lambda>c. c \<noteq> CHR ''-'')
              (password (fst (generatePassword sort_impl Password opts src k)))"
  have ac: "anyClass opts" using any by (simp add: anyClass_def)
  note mem = password_contains_required [where sort_impl = sort_impl, OF perm ac]
  have l: "includeLowercase opts \<longrightarrow> (\<exists>c\<in>set ?s. c \<in> set lower)"
    using required_lower [of opts src k] mem by blast
  have u: "includeUppercase opts \<longrightarrow> (\<exists>c\<in>set ?s. c \<in> set upper)"
    using required_upper [of opts src k] mem by blast
  have n: "includeNumbers opts \<longrightarrow> (\<exists>c\<in>set ?s. c \<in> set numbers)"
    using required_numbers [of opts src k] mem by blast
  have s: "includeSymbols opts \<longrightarrow> (\<exists>c\<in>set ?s. c \<in> set symbols)"
    using required_symbols [of opts src k] mem by blast
  from any l u n s obtain c where "c \<in> set ?s" by auto
  then have "password (fst (generatePassword sort_impl Password opts src k)) \<noteq> []"
    by auto
  with l u n s show ?thesis by blast
qed

theorem password_covers_selected_classes_witness:
  "(\<forall>cmp xs k. mset (fst (insertion_sort cmp xs k)) = mset xs)
   \<and> includeLowercase dashedOptions \<and> includeUppercase dashedOptions
   \<and> includeNumbers dashedOptions \<and> includeSymbols dashedOptions
   \<and> password (fst (generatePassword insertion_sort Password dashedOptions sampleSource 0)) \<noteq> []
   \<and> (\<exists>c\<in>set (filter (\<lambda>c. c \<noteq> CHR ''-'')
          (password (fst (generatePassword insertion_sort Password dashedOptions sampleSource 0)))).
          c \<in> set lower)
   \<and> (\<exists>c\<in>set (filter (\<lambda>c. c \<noteq> CHR ''-'')
          (password (fst (generatePassword insertion_sort Password dashedOptions sampleSource 0)))).
          c \<in> set upper)
   \<and> (\<exists>c\<in>set (filter (\<lambda>c. c \<noteq> CHR ''-'')
          (password (fst (generatePassword insertion_sort Password dashedOptions sampleSource 0)))).
          c \<in> set numbers)
   \<and> (\<exists>c\<in>set (filter (\<lambda>c. c \<noteq> CHR ''-'')
          (password (fst (generatePassword insertion_sort Password dashedOptions sampleSource 0)))).
          c \<in> set symbols)"
proof -
  have flags: "includeLowercase dashedOptions" "includeUppercase dashedOptions"
    "includeNumbers dashedOptions" "includeSymbols dashedOptions"
    by (simp_all add: dashedOptions_def defaultOptions_def)
  then have any: "includeLowercase dashedOptions \<or> includeUppercase dashedOptions
      \<or> includeNumbers dashedOptions \<or> includeSymbols dashedOptions" by simp
  from password_covers_selected_classes [where sort_impl = insertion_sort,
      OF insertion_sort_mset any, of sampleSource 0]
  show ?thesis using flags insertion_sort_mset by blast
qed

section \<open>Entropy\<close>

lemma defaultOptions_charset: "length (generateCharacterSet defaultOptions) = 88"
  by (simp add: generateCharacterSet_def defaultOptions_def lower_def upper_def numbers_def
      symbols_def)

lemma dashedOptions_charset: "length (generateCharacterSet dashedOptions) = 88"
  by (simp add: generateCharacterSet_def defaultOptions_def dashedOptions_def lower_def
      upper_def numbers_def symbols_def)

lemma charset_size: "anyClass opts \<Longrightarrow> 1 < length (generateCharacterSet opts)"
  by (auto simp: generateCharacterSet_def anyClass_def lower_def upper_def numbers_def
      symbols_def ambiguous_def)

lemma password_entropy:
  "anyClass opts \<Longrightarrow>
   entropy (fst (generatePassword sort_impl Password opts src k))
     = real (length (password (fst (generatePassword sort_impl Password opts src k))))
         * log 2 (real (length (generateCharacterSet opts)))"
  by (simp add: generatePassword_password_mode Let_def calculateEntropy_def)

lemma password_final:
  "anyClass opts \<Longrightarrow>
   password (fst (generatePassword sort_impl Password opts src k))
     = finalOf opts (fst (shuffledPassword sort_impl opts src k))"
  by (simp add: generatePassword_password_mode Let_def)

lemma log2_88_bounds: "103 < 16 * log 2 88" "16 * log 2 88 < 104"
proof -
  have eq: "16 * log 2 88 = log 2 (real ((88::nat) ^ 16))"
    using log_nat_power [of 88 2 16] by simp
  have "(2::nat) ^ 103 < 88 ^ 16" by simp
  from less_log2_of_power [OF this] show "103 < 16 * log 2 88" unfolding eq by simp
  have "(88::nat) ^ 16 < 2 ^ 104" by simp
  then have "real ((88::nat) ^ 16) < 2 ^ 104"
    by (metis of_nat_less_iff of_nat_numeral of_nat_power)
  then have "log 2 (real ((88::nat) ^ 16)) < log 2 (2 ^ 104)"
    by (subst log_less_cancel_iff) simp_all
  also have "log 2 (2 ^ 104) = 104" using log_pow_cancel [of 2 104] by simp
  finally show "16 * log 2 88 < 104" unfolding eq .
qed

lemma default_result:
  assumes perm: "\<And>cmp xs k. mset (fst (sort_impl cmp xs k)) = mset xs"
  shows "length (password (fst (generatePassword sort_impl Password defaultOptions src k))) = 16"
    and "entropy (fst (generatePassword sort_impl Password defaultOptions src k)) = 16 * log 2 88"
proof -
  have "int (length (fst (shuffledPassword sort_impl defaultOptions src k))) = 16"
    using shuffledPassword_length [where sort_impl = sort_impl, OF perm, of defaultOptions src k]
    by (simp add: defaultOptions_def classCount_def)
  then have "length (fst (shuffledPassword sort_impl defaultOptions src k)) = 16" by simp
  moreover have "\<not> includeDashes defaultOptions" by (simp add: defaultOptions_def)
  ultimately show len:
    "length (password (fst (generatePassword sort_impl Password defaultOptions src k))) = 16"
    by (simp add: password_final anyClass_samples finalOf_def)
  show "entropy (fst (generatePassword sort_impl Password defaultOptions src k)) = 16 * log 2 88"
    by (simp add: password_entropy anyClass_samples len defaultOptions_charset)
qed

text \<open>
  C1. The code at the initial options, in passphrase mode: the secret has 32 characters and
  the entropy is 32, the length times \<open>log2\<close> of the length of the string \<open>"62"\<close>, which is
  2; it is not 32 times \<open>log2 62\<close>.
\<close>

theorem passphrase_entropy_at_default:
  "password (fst (generatePassword insertion_sort Passphrase defaultOptions sampleSource 0))
     = ''Eagle48-Phoenix22-Pearl96-Leaf70''
   \<and> length ''62'' = 2
   \<and> entropy (fst (generatePassword insertion_sort Passphrase defaultOptions sampleSource 0)) = 32
   \<and> entropy (fst (generatePassword insertion_sort Passphrase defaultOptions sampleSource 0))
       \<noteq> 32 * log 2 62"
proof -
  have pw: "password (fst (generatePassword insertion_sort Passphrase defaultOptions sampleSource 0))
     = ''Eagle48-Phoenix22-Pearl96-Leaf70''"
    by (simp add: generatePassword_def defaultOptions_def Let_def case_prod_beta sample_tokens)
  have e: "entropy (fst (generatePassword insertion_sort Passphrase defaultOptions sampleSource 0))
     = 32"
    unfolding passphrase_entropy_is_length pw by simp
  have "1 < log 2 62" by simp
  then have "(32::real) \<noteq> 32 * log 2 62" by linarith
  with pw e show ?thesis by simp
qed

text \<open>
  C2, as stated, fails: with the initial options, a length of 9 and dashes on, the password
  before the dashes has 9 characters and the secret 13, and the entropy is 13 times
  \<open>log2 88\<close>, not 9 times.
\<close>

theorem password_entropy_excludes_dashes_counterexample:
  "length (fst (shuffledPassword insertion_sort dashedOptions sampleSource 0)) = 9
   \<and> password (fst (generatePassword insertion_sort Password dashedOptions sampleSource 0))
       = ''Wl-#5-u)-5R-g''
   \<and> entropy (fst (generatePassword insertion_sort Password dashedOptions sampleSource 0))
       = 13 * log 2 88
   \<and> entropy (fst (generatePassword insertion_sort Password dashedOptions sampleSource 0))
       \<noteq> 9 * log 2 (real (length (generateCharacterSet dashedOptions)))"
proof -
  have d: "includeDashes dashedOptions" by (simp add: dashedOptions_def)
  have pw: "password (fst (generatePassword insertion_sort Password dashedOptions sampleSource 0))
       = ''Wl-#5-u)-5R-g''"
    using d by (simp add: password_final anyClass_samples finalOf_def sample_shuffled sample_dashed)
  have e: "entropy (fst (generatePassword insertion_sort Password dashedOptions sampleSource 0))
       = 13 * log 2 88"
    by (simp add: password_entropy anyClass_samples pw dashedOptions_charset)
  have "0 < log 2 88" by simp
  then have "13 * log 2 88 \<noteq> 9 * log 2 88" by linarith
  with pw e show ?thesis by (simp add: sample_shuffled dashedOptions_charset)
qed

text \<open>
  C2, amended. With at least one class selected, the entropy of password mode is the length
  of the returned secret, inserted dashes included, times \<open>log2\<close> of the size of the combined
  charset. When no dash is inserted (\<open>includeDashes\<close> false, or at most 8 characters before
  the dashes) the secret is the password before the dashes and the entropy is that length
  times \<open>log2\<close> of the charset size; when dashes are inserted the secret is longer and the
  entropy larger than that.
\<close>

theorem password_entropy_of_final_secret:
  assumes "includeLowercase opts \<or> includeUppercase opts \<or> includeNumbers opts
             \<or> includeSymbols opts"
  shows "entropy (fst (generatePassword sort_impl Password opts src k))
       = real (length (password (fst (generatePassword sort_impl Password opts src k))))
           * log 2 (real (length (generateCharacterSet opts)))
    \<and> (\<not> (includeDashes opts \<and> 8 < length (fst (shuffledPassword sort_impl opts src k))) \<longrightarrow>
          password (fst (generatePassword sort_impl Password opts src k))
            = fst (shuffledPassword sort_impl opts src k)
        \<and> entropy (fst (generatePassword sort_impl Password opts src k))
            = real (length (fst (shuffledPassword sort_impl opts src k)))
                * log 2 (real (length (generateCharacterSet opts))))
    \<and> (includeDashes opts \<and> 8 < length (fst (shuffledPassword sort_impl opts src k)) \<longrightarrow>
          length (fst (shuffledPassword sort_impl opts src k))
            < length (password (fst (generatePassword sort_impl Password opts src k)))
        \<and> real (length (fst (shuffledPassword sort_impl opts src k)))
                * log 2 (real (length (generateCharacterSet opts)))
            < entropy (fst (generatePassword sort_impl Password opts src k)))"
proof -
  let ?sh = "fst (shuffledPassword sort_impl opts src k)"
  let ?r = "fst (generatePassword sort_impl Password opts src k)"
  let ?L = "log 2 (real (length (generateCharacterSet opts)))"
  have ac: "anyClass opts" using assms by (simp add: anyClass_def)
  have e: "entropy ?r = real (length (password ?r)) * ?L"
    using ac by (rule password_entropy)
  have pw: "password ?r = finalOf opts ?sh" using ac by (rule password_final)
  have "1 < real (length (generateCharacterSet opts))"
    using charset_size [OF ac] by (metis of_nat_1 of_nat_less_iff)
  moreover have "generateCharacterSet opts \<noteq> []"
    using ac by (simp add: generateCharacterSet_empty_iff)
  ultimately have L: "0 < ?L" by (subst zero_less_log_cancel_iff) simp_all
  have plain: "\<not> (includeDashes opts \<and> 8 < length ?sh) \<longrightarrow>
      password ?r = ?sh \<and> entropy ?r = real (length ?sh) * ?L"
    using e pw by (auto simp: finalOf_def)
  have dashed: "includeDashes opts \<and> 8 < length ?sh \<longrightarrow>
      length ?sh < length (password ?r) \<and> real (length ?sh) * ?L < entropy ?r"
  proof
    assume a: "includeDashes opts \<and> 8 < length ?sh"
    then have fin: "password ?r = addDashes ?sh" using pw by (simp add: finalOf_def)
    from a have "8 < length ?sh" by simp
    from addDashes_shape [OF this] obtain init :: "string list" where
      "init \<noteq> []" "length (addDashes ?sh) = length ?sh + length init"
      by blast
    then have lt: "length ?sh < length (password ?r)" using fin by (cases init) simp_all
    then have "real (length ?sh) * ?L < real (length (password ?r)) * ?L"
      using L by simp
    with lt e show "length ?sh < length (password ?r) \<and> real (length ?sh) * ?L < entropy ?r"
      by simp
  qed
  from e plain dashed show ?thesis by blast
qed

theorem password_entropy_of_final_secret_witness:
  "includeLowercase defaultOptions \<and> \<not> includeDashes defaultOptions
   \<and> entropy (fst (generatePassword insertion_sort Password defaultOptions sampleSource 0))
       = real (length (fst (shuffledPassword insertion_sort defaultOptions sampleSource 0)))
           * log 2 (real (length (generateCharacterSet defaultOptions)))
   \<and> includeLowercase dashedOptions \<and> includeDashes dashedOptions
   \<and> 8 < length (fst (shuffledPassword insertion_sort dashedOptions sampleSource 0))
   \<and> length (fst (shuffledPassword insertion_sort dashedOptions sampleSource 0))
       < length (password (fst (generatePassword insertion_sort Password dashedOptions
            sampleSource 0)))
   \<and> real (length (fst (shuffledPassword insertion_sort dashedOptions sampleSource 0)))
         * log 2 (real (length (generateCharacterSet dashedOptions)))
       < entropy (fst (generatePassword insertion_sort Password dashedOptions sampleSource 0))"
proof -
  have f1: "includeLowercase defaultOptions" "\<not> includeDashes defaultOptions"
    by (simp_all add: defaultOptions_def)
  have f2: "includeLowercase dashedOptions" "includeDashes dashedOptions"
    by (simp_all add: dashedOptions_def defaultOptions_def)
  have f3: "8 < length (fst (shuffledPassword insertion_sort dashedOptions sampleSource 0))"
    by (simp add: sample_shuffled)
  from password_entropy_of_final_secret [of defaultOptions insertion_sort sampleSource 0]
    password_entropy_of_final_secret [of dashedOptions insertion_sort sampleSource 0]
  show ?thesis using f1 f2 f3 by blast
qed

text \<open>
  C3, as stated, fails: the symbol alphabet of \<open>generateCharacterSet\<close> has 26 characters,
  so the combined charset of the initial options has 88 characters, not 89, and the entropy
  is not 16 times \<open>log2 89\<close>.
\<close>

theorem default_charset_89_counterexample:
  "length symbols = 26
   \<and> length (generateCharacterSet defaultOptions) \<noteq> 26 + 26 + 10 + 27
   \<and> entropy (fst (generatePassword insertion_sort Password defaultOptions sampleSource 0))
       \<noteq> 16 * log 2 89"
proof -
  have "log 2 88 < log 2 89" by (subst log_less_cancel_iff) simp_all
  then have "16 * log 2 88 \<noteq> 16 * log 2 89" by linarith
  then show ?thesis
    using default_result(2) [where sort_impl = insertion_sort, OF insertion_sort_mset]
    by (simp add: defaultOptions_charset symbols_def)
qed

text \<open>
  C3, amended. For the options \<open>{length: 16, all four classes, excludeAmbiguous: false,
  includeDashes: false}\<close> in password mode, with an engine sort that returns a permutation
  of its input: the secret has length 16, the combined charset has size 26 + 26 + 10 + 26 =
  88, the entropy is 16 times \<open>log2 88\<close> (between 103 and 104), and the strength is 4.
\<close>

theorem default_password_result:
  assumes "\<And>cmp xs k. mset (fst (sort_impl cmp xs k)) = mset xs"
  shows "length (password (fst (generatePassword sort_impl Password defaultOptions src k))) = 16
    \<and> length (generateCharacterSet defaultOptions) = 26 + 26 + 10 + 26
    \<and> entropy (fst (generatePassword sort_impl Password defaultOptions src k)) = 16 * log 2 88
    \<and> 103 < entropy (fst (generatePassword sort_impl Password defaultOptions src k))
    \<and> entropy (fst (generatePassword sort_impl Password defaultOptions src k)) < 104
    \<and> strength (fst (generatePassword sort_impl Password defaultOptions src k)) = 4"
proof -
  let ?r = "fst (generatePassword sort_impl Password defaultOptions src k)"
  note r = default_result [where sort_impl = sort_impl, OF assms, of src k]
  have b: "103 < entropy ?r" "entropy ?r < 104"
    using log2_88_bounds by (simp_all add: r(2))
  have "strength ?r = getPasswordStrength (password ?r) (entropy ?r)"
    by (simp add: generatePassword_password_mode anyClass_samples Let_def)
  also have "\<dots> = 4" using b by (simp add: getPasswordStrength_def)
  finally have "strength ?r = 4" .
  with r b show ?thesis by (simp add: defaultOptions_charset)
qed

theorem default_password_result_witness:
  "(\<forall>cmp xs k. mset (fst (insertion_sort cmp xs k)) = mset xs)
   \<and> length (password (fst (generatePassword insertion_sort Password defaultOptions
         sampleSource 0))) = 16
   \<and> entropy (fst (generatePassword insertion_sort Password defaultOptions sampleSource 0))
       = 16 * log 2 88
   \<and> strength (fst (generatePassword insertion_sort Password defaultOptions sampleSource 0)) = 4"
  using default_password_result [where sort_impl = insertion_sort, OF insertion_sort_mset,
      of sampleSource 0]
  by (simp add: insertion_sort_mset)

section \<open>Required characters\<close>

text \<open>
  C4, as stated, fails for the symbols: on the sample random words the code draws \<open>#\<close>, the
  character at index \<open>122 mod 8\<close> of \<open>!@#$%^&*\<close>, where a draw from the symbol seed alphabet
  gives \<open>|\<close>, the character at index \<open>122 mod 26\<close>; and \<open>?\<close>, a symbol of the seed alphabet,
  is not among the eight characters the code draws from.
\<close>

theorem required_symbol_full_alphabet_counterexample:
  "requiredChars defaultOptions sampleSource 0 = (''lW5#'', 4)
   \<and> requiredChars_spec defaultOptions sampleSource 0 = (''lW5|'', 4)
   \<and> requiredChars defaultOptions sampleSource 0
       \<noteq> requiredChars_spec defaultOptions sampleSource 0
   \<and> CHR ''?'' \<in> set symbols \<and> CHR ''?'' \<notin> set ''!@#$%^&*''"
proof -
  have a: "requiredChars defaultOptions sampleSource 0 = (''lW5#'', 4)" by code_simp
  have b: "requiredChars_spec defaultOptions sampleSource 0 = (''lW5|'', 4)" by code_simp
  show ?thesis unfolding a b by (simp add: symbols_def)
qed

text \<open>
  C4, amended. In password mode, for every true class flag exactly one required character
  is drawn, by one call of the randomness source each, from a fixed alphabet of that class:
  the 26 lowercase letters, the 26 uppercase letters, the 10 digits and, for the symbols,
  the 8 characters \<open>!@#$%^&*\<close>, which are part of the symbol seed alphabet but not all of
  it. The draw does not read the combined charset: it is the same whatever
  \<open>excludeAmbiguous\<close> is.
\<close>

theorem requiredChars_one_per_class:
  "fst (requiredChars opts src k) =
       (if includeLowercase opts then [lower ! fst (getSecureRandom src k (length lower))] else [])
     @ (if includeUppercase opts
        then [upper ! fst (getSecureRandom src (k + of_bool (includeLowercase opts))
                             (length upper))] else [])
     @ (if includeNumbers opts
        then [numbers ! fst (getSecureRandom src (k + of_bool (includeLowercase opts)
                               + of_bool (includeUppercase opts)) (length numbers))] else [])
     @ (if includeSymbols opts
        then [''!@#$%^&*'' ! fst (getSecureRandom src (k + of_bool (includeLowercase opts)
                               + of_bool (includeUppercase opts)
                               + of_bool (includeNumbers opts)) 8)] else [])
   \<and> snd (requiredChars opts src k) = k + classCount opts
   \<and> length (fst (requiredChars opts src k)) = classCount opts
   \<and> length lower = 26 \<and> length upper = 26 \<and> length numbers = 10
   \<and> set ''!@#$%^&*'' \<subset> set symbols
   \<and> requiredChars (opts\<lparr>excludeAmbiguous := b\<rparr>) src k = requiredChars opts src k"
proof -
  have "CHR ''?'' \<in> set symbols" "CHR ''?'' \<notin> set ''!@#$%^&*''"
    by (simp_all add: symbols_def)
  then have sub: "set ''!@#$%^&*'' \<subset> set symbols"
    using required_symbols_subset by blast
  have ind: "requiredChars (opts\<lparr>excludeAmbiguous := b\<rparr>) src k = requiredChars opts src k"
    by (simp add: requiredChars_def)
  have len: "length lower = 26" "length upper = 26" "length numbers = 10"
    by (simp_all add: lower_def upper_def numbers_def)
  have cf: "fst (requiredChars opts src k) =
       (if includeLowercase opts then [lower ! fst (getSecureRandom src k (length lower))] else [])
     @ (if includeUppercase opts
        then [upper ! fst (getSecureRandom src (k + of_bool (includeLowercase opts))
                             (length upper))] else [])
     @ (if includeNumbers opts
        then [numbers ! fst (getSecureRandom src (k + of_bool (includeLowercase opts)
                               + of_bool (includeUppercase opts)) (length numbers))] else [])
     @ (if includeSymbols opts
        then [''!@#$%^&*'' ! fst (getSecureRandom src (k + of_bool (includeLowercase opts)
                               + of_bool (includeUppercase opts)
                               + of_bool (includeNumbers opts)) 8)] else [])"
    unfolding len by (simp add: requiredChars_closed getSecureRandom_def)
  have sn: "snd (requiredChars opts src k) = k + classCount opts"
    by (simp add: requiredChars_closed)
  show ?thesis
    by (intro conjI) (rule cf sn requiredChars_length len sub ind)+
qed

end
